theory Spec2Isabelle
  imports Main
begin

section \<open>The instance managers of the broker: data model\<close>

text \<open>
  The development embeds \<^verbatim>\<open>redislabs/instancemanagers/default.go\<close>: the operations
  \<^verbatim>\<open>Create\<close>, \<^verbatim>\<open>Update\<close>, \<^verbatim>\<open>Destroy\<close> and \<^verbatim>\<open>InstanceExists\<close> of
  \<^verbatim>\<open>defaultCreator\<close>, with their helpers \<^verbatim>\<open>createDatabase\<close>, \<^verbatim>\<open>updateDatabase\<close> and
  \<^verbatim>\<open>deleteDatabase\<close>.

  The file uses three collaborators whose code is elsewhere: the state persister, the
  API client of the cluster and the logger. Each one is a parameter of the model: a
  record of functions over the collaborator's own state, returning the result of the
  call and the collaborator's next state. Nothing is assumed about what they return.
\<close>

subsection \<open>Values that cross the interfaces\<close>

text \<open>The values of Go's \<^verbatim>\<open>interface{}\<close>; the manager never looks into them.\<close>

typedecl iface

text \<open>\<^verbatim>\<open>map[string]interface{}\<close>: the settings of a creation, the parameters of an update.\<close>

type_synonym settings = "string \<rightharpoonup> iface"

text \<open>
  Go's \<^verbatim>\<open>error\<close>. The named values are those the file returns by name (the four
  \<^verbatim>\<open>Err...\<close> variables of the package and \<^verbatim>\<open>brokerapi.ErrInstanceDoesNotExist\<close>);
  \<open>OtherError\<close> is any other error value, told apart by its message. The nil error is
  \<open>None\<close> of \<open>error option\<close>.
\<close>

datatype error =
    ErrInstanceExists
  | ErrFailedToLoadState
  | ErrFailedToSaveState
  | ErrCreateDatabaseTimeoutExpired
  | ErrInstanceDoesNotExist
  | OtherError string

text \<open>
  Modelled from the spec: the struct \<^verbatim>\<open>cluster.InstanceCredentials\<close>, whose declaration is
  not part of the file. The file reads its field \<^verbatim>\<open>UID\<close> (an \<^verbatim>\<open>int\<close>, passed to
  \<^verbatim>\<open>UpdateDatabase\<close> and \<^verbatim>\<open>DeleteDatabase\<close>) and builds its zero value; the spec calls the
  rest "connection secrets", kept here as one opaque field.
\<close>

record InstanceCredentials =
  UID :: int
  Secrets :: string

text \<open>The zero value \<^verbatim>\<open>cluster.InstanceCredentials{}\<close>.\<close>

definition zeroCredentials :: InstanceCredentials where
  "zeroCredentials = \<lparr>UID = 0, Secrets = ''''\<rparr>"

text \<open>
  \<^verbatim>\<open>persisters.ServiceInstance\<close> and \<^verbatim>\<open>persisters.State\<close>, with the fields the file uses.
  A slice is a list; the nil slice and the empty slice are both \<open>[]\<close>.
\<close>

record ServiceInstance =
  ID :: string
  Credentials :: InstanceCredentials

record State =
  AvailableInstances :: "ServiceInstance list"

text \<open>
  The channel that \<^verbatim>\<open>CreateDatabase\<close> returns, seen from the one \<^verbatim>\<open>select\<close> that reads
  it: either nothing can ever be received from it (\<open>Silent\<close>: a nil channel, or one that
  is never written to), or a value can be received \<open>t\<close> nanoseconds after the
  \<^verbatim>\<open>select\<close> starts (\<open>Delivers t c\<close>; a closed channel is \<open>Delivers 0 zeroCredentials\<close>).
\<close>

datatype chan = Silent | Delivers nat InstanceCredentials

subsection \<open>The collaborators\<close>

text \<open>
  \<^verbatim>\<open>persisters.StatePersister\<close>: \<^verbatim>\<open>Load() (*State, error)\<close> and \<^verbatim>\<open>Save(*State) error\<close>, over
  the store \<open>'p\<close> the persister keeps. \<open>Load\<close> reads the store and returns a snapshot of
  it (a value: changing the snapshot in memory does not change the store); a successful
  \<open>Load\<close> returns a state, not a nil pointer. \<open>Save\<close> may change the store and may fail.
\<close>

record 'p StatePersister =
  Load :: "'p \<Rightarrow> error + State"
  Save :: "State \<Rightarrow> 'p \<Rightarrow> error option \<times> 'p"

text \<open>
  \<^verbatim>\<open>apiclient.Client\<close> over the state \<open>'c\<close> of the remote cluster. \<^verbatim>\<open>CreateDatabase\<close>
  returns a channel or an error; the other two return an error or nil.
\<close>

record 'c Client =
  CreateDatabase :: "settings \<Rightarrow> 'c \<Rightarrow> (error + chan) \<times> 'c"
  UpdateDatabase :: "int \<Rightarrow> settings \<Rightarrow> 'c \<Rightarrow> error option \<times> 'c"
  DeleteDatabase :: "int \<Rightarrow> 'c \<Rightarrow> error option \<times> 'c"

text \<open>
  \<^verbatim>\<open>lager.Logger\<close>. \<^verbatim>\<open>Info\<close> and \<^verbatim>\<open>Error\<close> only write a log line and are left out of the
  model. \<^verbatim>\<open>Fatal\<close> matters for the control flow: lager's own logger panics after
  logging, another implementation of the interface may return. The flag says which.
\<close>

record Logger =
  FatalPanics :: bool

text \<open>
  \<^verbatim>\<open>defaultCreator\<close>. Its field \<^verbatim>\<open>lock\<close> is not a field here: a call is modelled as one
  sequential run that finds the mutex free, and \<^verbatim>\<open>Lock\<close> and \<^verbatim>\<open>Unlock\<close> are recorded as
  events of the run.
\<close>

record 'c defaultCreator =
  logger :: Logger
  apiClient :: "'c Client"

subsection \<open>The world a call runs in\<close>

text \<open>
  Every call on a collaborator or on the mutex is recorded, with its arguments and its
  result, in the order the calls are made.
\<close>

datatype event =
    EvLock
  | EvUnlock
  | EvLoad "error + State"
  | EvSave State "error option"
  | EvCreateDatabase settings "error + chan"
  | EvUpdateDatabase int settings "error option"
  | EvDeleteDatabase int "error option"

text \<open>
  The world: the persister's store, the cluster behind the client, the package variable
  \<^verbatim>\<open>WaitingForDatabaseTimeout\<close> (seconds; an \<^verbatim>\<open>int\<close>), the choice \<^verbatim>\<open>select\<close> makes when
  both of its cases are ready at the same instant (Go picks one at random; \<open>True\<close>:
  the receive), and the events so far.
\<close>

record ('p, 'c) world =
  store :: 'p
  cluster :: 'c
  WaitingForDatabaseTimeout :: int
  selectPicksReceive :: bool
  trace :: "event list"

definition emit :: "event \<Rightarrow> ('p, 'c) world \<Rightarrow> ('p, 'c) world" where
  "emit e w = w\<lparr>trace := trace w @ [e]\<rparr>"

text \<open>The initial value of the package variable: \<^verbatim>\<open>WaitingForDatabaseTimeout = 15\<close>.\<close>

definition defaultWaitingForDatabaseTimeout :: int where
  "defaultWaitingForDatabaseTimeout = 15"

text \<open>How a call ends: it returns its \<^verbatim>\<open>error\<close> (nil is \<open>None\<close>) or it panics.\<close>

datatype outcome = Return "error option" | Panic error

section \<open>The operations\<close>

subsection \<open>Waiting for the database\<close>

text \<open>A 64-bit signed integer operation wraps around.\<close>

definition wrap64 :: "int \<Rightarrow> int" where
  "wrap64 x = (x + 2 ^ 63) mod 2 ^ 64 - 2 ^ 63"

text \<open>
  \<^verbatim>\<open>time.Second * time.Duration(WaitingForDatabaseTimeout)\<close>, in nanoseconds:
  \<^verbatim>\<open>time.Duration\<close> is an \<^verbatim>\<open>int64\<close> and \<^verbatim>\<open>time.Second\<close> is \<open>10\<^sup>9\<close>.
\<close>

definition timerDuration :: "int \<Rightarrow> int" where
  "timerDuration secs = wrap64 (1000000000 * wrap64 secs)"

text \<open>
  The \<^verbatim>\<open>select\<close> of \<^verbatim>\<open>createDatabase\<close>: a receive from the channel against
  \<^verbatim>\<open>time.After(d)\<close>, whose timer is ready after \<open>d\<close> nanoseconds, at once when \<open>d \<le> 0\<close>.
  The case that is ready first runs; \<open>tie\<close> decides when both are ready at the same
  instant. \<open>Some c\<close>: the receive ran and got \<open>c\<close>; \<open>None\<close>: the timer ran.
\<close>

definition selectReceive :: "chan \<Rightarrow> int \<Rightarrow> bool \<Rightarrow> InstanceCredentials option" where
  "selectReceive ch d tie =
     (case ch of
        Silent \<Rightarrow> None
      | Delivers t c \<Rightarrow>
          if int t < max 0 d then Some c
          else if int t = max 0 d \<and> tie then Some c
          else None)"

text \<open>
  \<^verbatim>\<open>createDatabase\<close>. Both cases of the \<^verbatim>\<open>select\<close> return, so the \<^verbatim>\<open>for\<close> around it runs
  its body once.
\<close>

definition createDatabase ::
  "'c defaultCreator \<Rightarrow> settings \<Rightarrow> ('p, 'c) world
    \<Rightarrow> (InstanceCredentials \<times> error option) \<times> ('p, 'c) world" where
  "createDatabase d settings w =
     (case CreateDatabase (apiClient d) settings (cluster w) of
        (r, c') \<Rightarrow>
          let w1 = emit (EvCreateDatabase settings r) (w\<lparr>cluster := c'\<rparr>) in
          (case r of
             Inl err \<Rightarrow> ((zeroCredentials, Some err), w1)
           | Inr ch \<Rightarrow>
               (case selectReceive ch (timerDuration (WaitingForDatabaseTimeout w1))
                       (selectPicksReceive w1) of
                  Some credentials \<Rightarrow> ((credentials, None), w1)
                | None \<Rightarrow> ((zeroCredentials, Some ErrCreateDatabaseTimeoutExpired), w1))))"

definition updateDatabase ::
  "'c defaultCreator \<Rightarrow> int \<Rightarrow> settings \<Rightarrow> ('p, 'c) world
    \<Rightarrow> error option \<times> ('p, 'c) world" where
  "updateDatabase d uid params w =
     (case UpdateDatabase (apiClient d) uid params (cluster w) of
        (r, c') \<Rightarrow> (r, emit (EvUpdateDatabase uid params r) (w\<lparr>cluster := c'\<rparr>)))"

definition deleteDatabase ::
  "'c defaultCreator \<Rightarrow> int \<Rightarrow> ('p, 'c) world \<Rightarrow> error option \<times> ('p, 'c) world" where
  "deleteDatabase d uid w =
     (case DeleteDatabase (apiClient d) uid (cluster w) of
        (r, c') \<Rightarrow> (r, emit (EvDeleteDatabase uid r) (w\<lparr>cluster := c'\<rparr>)))"

subsection \<open>Create\<close>

text \<open>
  The loop of \<^verbatim>\<open>Create\<close> over \<^verbatim>\<open>(*state).AvailableInstances\<close>: \<open>True\<close> when it returns
  \<^verbatim>\<open>ErrInstanceExists\<close> at some record, \<open>False\<close> when it runs to the end.
\<close>

fun instanceFound :: "string \<Rightarrow> ServiceInstance list \<Rightarrow> bool" where
  "instanceFound instanceID [] = False"
| "instanceFound instanceID (s # rest) =
     (if ID s = instanceID then True else instanceFound instanceID rest)"

text \<open>
  \<^verbatim>\<open>Create\<close>. The deferred \<^verbatim>\<open>Unlock\<close> runs on every way out, the panic of \<^verbatim>\<open>Fatal\<close>
  included.
\<close>

definition Create ::
  "'c defaultCreator \<Rightarrow> string \<Rightarrow> settings \<Rightarrow> 'p StatePersister \<Rightarrow> ('p, 'c) world
    \<Rightarrow> outcome \<times> ('p, 'c) world" where
  "Create d instanceID settings persister w =
     (let w0 = emit EvLock w;
          loaded = Load persister (store w0);
          w1 = emit (EvLoad loaded) w0 in
      case loaded of
        Inl err \<Rightarrow>
          if FatalPanics (logger d) then (Panic err, emit EvUnlock w1)
          else (Return (Some ErrFailedToLoadState), emit EvUnlock w1)
      | Inr state \<Rightarrow>
          if instanceFound instanceID (AvailableInstances state)
          then (Return (Some ErrInstanceExists), emit EvUnlock w1)
          else
            (case createDatabase d settings w1 of
               ((credentials, Some err), w2) \<Rightarrow> (Return (Some err), emit EvUnlock w2)
             | ((credentials, None), w2) \<Rightarrow>
                 let s = \<lparr>ID = instanceID, Credentials = credentials\<rparr>;
                     state' = state\<lparr>AvailableInstances := AvailableInstances state @ [s]\<rparr>
                 in
                 (case Save persister state' (store w2) of
                    (saved, p') \<Rightarrow>
                      let w3 = emit (EvSave state' saved) (w2\<lparr>store := p'\<rparr>) in
                      (case saved of
                         Some err \<Rightarrow> (Return (Some ErrFailedToSaveState), emit EvUnlock w3)
                       | None \<Rightarrow> (Return None, emit EvUnlock w3)))))"

subsection \<open>Update\<close>

text \<open>
  The loop of \<^verbatim>\<open>Update\<close>: at the first record with the given ID it returns what
  \<^verbatim>\<open>updateDatabase\<close> returns; with no such record, \<^verbatim>\<open>brokerapi.ErrInstanceDoesNotExist\<close>.
\<close>

fun updateLoop ::
  "'c defaultCreator \<Rightarrow> string \<Rightarrow> settings \<Rightarrow> ServiceInstance list \<Rightarrow> ('p, 'c) world
    \<Rightarrow> error option \<times> ('p, 'c) world" where
  "updateLoop d instanceID params [] w = (Some ErrInstanceDoesNotExist, w)"
| "updateLoop d instanceID params (instance # rest) w =
     (if ID instance = instanceID
      then updateDatabase d (UID (Credentials instance)) params w
      else updateLoop d instanceID params rest w)"

definition Update ::
  "'c defaultCreator \<Rightarrow> string \<Rightarrow> settings \<Rightarrow> 'p StatePersister \<Rightarrow> ('p, 'c) world
    \<Rightarrow> error option \<times> ('p, 'c) world" where
  "Update d instanceID params persister w =
     (let loaded = Load persister (store w);
          w1 = emit (EvLoad loaded) w in
      case loaded of
        Inl err \<Rightarrow> (Some err, w1)
      | Inr state \<Rightarrow> updateLoop d instanceID params (AvailableInstances state) w1)"

subsection \<open>Destroy\<close>

text \<open>
  The loop of \<^verbatim>\<open>Destroy\<close>, with its two variables \<^verbatim>\<open>instancesLeft\<close> and \<^verbatim>\<open>removed\<close>. The
  first component of the result is the error of the early return, \<open>None\<close> when the loop
  runs to the end.
\<close>

fun destroyLoop ::
  "'c defaultCreator \<Rightarrow> string \<Rightarrow> ServiceInstance list \<Rightarrow> ServiceInstance list \<Rightarrow> bool
    \<Rightarrow> ('p, 'c) world \<Rightarrow> (error option \<times> ServiceInstance list \<times> bool) \<times> ('p, 'c) world" where
  "destroyLoop d instanceID [] instancesLeft removed w = ((None, instancesLeft, removed), w)"
| "destroyLoop d instanceID (instance # rest) instancesLeft removed w =
     (if ID instance = instanceID
      then
        (case deleteDatabase d (UID (Credentials instance)) w of
           (Some err, w') \<Rightarrow> ((Some err, instancesLeft, removed), w')
         | (None, w') \<Rightarrow> destroyLoop d instanceID rest instancesLeft True w')
      else destroyLoop d instanceID rest (instancesLeft @ [instance]) removed w)"

definition Destroy ::
  "'c defaultCreator \<Rightarrow> string \<Rightarrow> 'p StatePersister \<Rightarrow> ('p, 'c) world
    \<Rightarrow> error option \<times> ('p, 'c) world" where
  "Destroy d instanceID persister w =
     (let loaded = Load persister (store w);
          w1 = emit (EvLoad loaded) w in
      case loaded of
        Inl err \<Rightarrow> (Some err, w1)
      | Inr state \<Rightarrow>
          (case destroyLoop d instanceID (AvailableInstances state) [] False w1 of
             ((Some err, instancesLeft, removed), w2) \<Rightarrow> (Some err, w2)
           | ((None, instancesLeft, removed), w2) \<Rightarrow>
               if \<not> removed then (Some ErrInstanceDoesNotExist, w2)
               else
                 let state' = state\<lparr>AvailableInstances := instancesLeft\<rparr> in
                 (case Save persister state' (store w2) of
                    (saved, p') \<Rightarrow>
                      let w3 = emit (EvSave state' saved) (w2\<lparr>store := p'\<rparr>) in
                      (case saved of
                         Some err \<Rightarrow> (Some err, w3)
                       | None \<Rightarrow> (None, w3)))))"

subsection \<open>InstanceExists\<close>

definition InstanceExists ::
  "'c defaultCreator \<Rightarrow> string \<Rightarrow> 'p StatePersister \<Rightarrow> ('p, 'c) world
    \<Rightarrow> (bool \<times> error option) \<times> ('p, 'c) world" where
  "InstanceExists d instanceID persister w = ((False, None), w)"

section \<open>Notions the properties use\<close>


section \<open>Collaborators of concrete runs\<close>

text \<open>
  A persister that keeps one state: \<open>Save\<close> stores the state passed and \<open>Load\<close>
  returns what is stored (the contract the spec gives the State Store: "Save persists
  exactly the structure passed"). It never fails.
\<close>

definition snapshotPersister :: "State StatePersister" where
  "snapshotPersister = \<lparr>Load = (\<lambda>p. Inr p), Save = (\<lambda>s p. (None, s))\<rparr>"

text \<open>A persister whose every call fails with the given error.\<close>

definition brokenPersister :: "error \<Rightarrow> State StatePersister" where
  "brokenPersister err = \<lparr>Load = (\<lambda>p. Inl err), Save = (\<lambda>s p. (Some err, p))\<rparr>"

text \<open>
  A client with scripted answers: \<open>ch\<close> to \<^verbatim>\<open>CreateDatabase\<close>, \<open>upd\<close> to
  \<^verbatim>\<open>UpdateDatabase\<close>, \<open>del\<close> to \<^verbatim>\<open>DeleteDatabase\<close>. Its cluster is the list of the UIDs it
  was asked to delete, the latest first.
\<close>

definition scriptedClient :: "error + chan \<Rightarrow> error option \<Rightarrow> error option \<Rightarrow> int list Client" where
  "scriptedClient ch upd del =
     \<lparr>CreateDatabase = (\<lambda>settings c. (ch, c)),
      UpdateDatabase = (\<lambda>uid params c. (upd, c)),
      DeleteDatabase = (\<lambda>uid c. (del, uid # c))\<rparr>"

definition scriptedCreator ::
  "error + chan \<Rightarrow> error option \<Rightarrow> error option \<Rightarrow> int list defaultCreator" where
  "scriptedCreator ch upd del =
     \<lparr>logger = \<lparr>FatalPanics = True\<rparr>, apiClient = scriptedClient ch upd del\<rparr>"

text \<open>A world with the given records stored, the default timeout and no event yet.\<close>

definition worldWith :: "ServiceInstance list \<Rightarrow> (State, int list) world" where
  "worldWith instances =
     \<lparr>store = \<lparr>AvailableInstances = instances\<rparr>, cluster = [],
      WaitingForDatabaseTimeout = defaultWaitingForDatabaseTimeout,
      selectPicksReceive = False, trace = []\<rparr>"

text \<open>The credentials \<^verbatim>\<open>{UID: n}\<close>, every other field zero.\<close>

definition credentialsUID :: "int \<Rightarrow> InstanceCredentials" where
  "credentialsUID n = \<lparr>UID = n, Secrets = ''''\<rparr>"

section \<open>Properties\<close>

subsection \<open>Events, records and the timer\<close>

lemma trace_emit: "trace (emit e w) = trace w @ [e]"
  by (simp add: emit_def)

lemma store_emit: "store (emit e w) = store w"
  by (simp add: emit_def)

lemma cluster_emit: "cluster (emit e w) = cluster w"
  by (simp add: emit_def)

lemma instanceFound_iff: "instanceFound instanceID xs \<longleftrightarrow> (\<exists>s \<in> set xs. ID s = instanceID)"
  by (induction xs) auto

text \<open>With the default of 15 seconds the timer waits \<open>15 \<cdot> 10\<^sup>9\<close> nanoseconds.\<close>

lemma timerDuration_default: "timerDuration defaultWaitingForDatabaseTimeout = 15000000000"
  by (simp add: timerDuration_def wrap64_def defaultWaitingForDatabaseTimeout_def)




text \<open>Among records with pairwise distinct IDs, a record is the only one with its ID.\<close>

lemma one_record_with_ID:
  "distinct (map ID xs) \<Longrightarrow> s \<in> set xs \<Longrightarrow> length (filter (\<lambda>x. ID x = ID s) xs) = 1"
  by (induction xs) (auto simp: filter_empty_conv image_iff)

subsection \<open>The loop of Destroy\<close>

lemma deleteDatabase_effect:
  assumes "deleteDatabase d uid w = (res, w1)"
  shows "trace w1 = trace w @ [EvDeleteDatabase uid res]"
    and "store w1 = store w"
    and "res = fst (DeleteDatabase (apiClient d) uid (cluster w))"
    and "cluster w1 = snd (DeleteDatabase (apiClient d) uid (cluster w))"
  using assms by (auto simp: deleteDatabase_def emit_def split: prod.splits)

text \<open>Records before the first one with the given ID are moved to \<^verbatim>\<open>instancesLeft\<close>.\<close>

lemma destroyLoop_skip:
  "\<forall>x \<in> set pre. ID x \<noteq> i \<Longrightarrow>
    destroyLoop d i (pre @ rest) left removed w = destroyLoop d i rest (left @ pre) removed w"
  by (induction pre arbitrary: left) simp_all

text \<open>
  What the loop leaves: the store untouched; one \<^verbatim>\<open>DeleteDatabase\<close> event for each record
  with the given ID that it reached; when it runs to the end, every call succeeded,
  \<^verbatim>\<open>instancesLeft\<close> has gained the other records in their order and \<^verbatim>\<open>removed\<close> tells
  whether some record had the ID; when it returns early, the last call is the only one
  that failed, and its error is the one returned.
\<close>

lemma destroyLoop_spec:
  "destroyLoop d i xs left removed w = ((r, left', removed'), w') \<Longrightarrow>
    store w' = store w \<and>
    (\<exists>evs. trace w' = trace w @ evs \<and>
       (\<forall>e \<in> set evs. \<exists>s \<in> set xs. \<exists>res. ID s = i \<and> e = EvDeleteDatabase (UID (Credentials s)) res) \<and>
       (case r of
          None \<Rightarrow> (\<forall>uid err. EvDeleteDatabase uid (Some err) \<notin> set evs) \<and>
             left' = left @ filter (\<lambda>s. ID s \<noteq> i) xs \<and>
             removed' = (removed \<or> (\<exists>s \<in> set xs. ID s = i))
        | Some err \<Rightarrow> (\<exists>evs' uid. evs = evs' @ [EvDeleteDatabase uid (Some err)] \<and>
             (\<forall>uid e. EvDeleteDatabase uid (Some e) \<notin> set evs'))))"
proof (induction xs arbitrary: left removed w)
  case Nil
  then show ?case by simp
next
  case (Cons x xs)
  show ?case
  proof (cases "ID x = i")
    case False
    with Cons.prems have "destroyLoop d i xs (left @ [x]) removed w = ((r, left', removed'), w')"
      by simp
    from Cons.IH [OF this] False show ?thesis
      by (auto split: option.splits)
  next
    case True
    obtain res w1 where del: "deleteDatabase d (UID (Credentials x)) w = (res, w1)"
      by (cases "deleteDatabase d (UID (Credentials x)) w")
    note eff = deleteDatabase_effect [OF del]
    show ?thesis
    proof (cases res)
      case (Some err)
      with Cons.prems True del have "r = Some err" "w' = w1"
        by simp_all
      have "trace w' = trace w @ [EvDeleteDatabase (UID (Credentials x)) (Some err)]"
        using eff(1) Some \<open>w' = w1\<close> by simp
      moreover have "[EvDeleteDatabase (UID (Credentials x)) (Some err)] =
          [] @ [EvDeleteDatabase (UID (Credentials x)) (Some err)]"
        by simp
      ultimately have "\<exists>evs. trace w' = trace w @ evs \<and>
         (\<forall>e \<in> set evs. \<exists>s \<in> set (x # xs). \<exists>res. ID s = i \<and> e = EvDeleteDatabase (UID (Credentials s)) res) \<and>
         (\<exists>evs' uid. evs = evs' @ [EvDeleteDatabase uid (Some err)] \<and>
             (\<forall>uid e. EvDeleteDatabase uid (Some e) \<notin> set evs'))"
        using True by - (rule exI [of _ "[EvDeleteDatabase (UID (Credentials x)) (Some err)]"], simp)
      then show ?thesis
        using eff(2) \<open>r = Some err\<close> \<open>w' = w1\<close> by simp
    next
      case None
      with Cons.prems True del have "destroyLoop d i xs left True w1 = ((r, left', removed'), w')"
        by simp
      from Cons.IH [OF this] obtain evs where
        st: "store w' = store w1" and tr: "trace w' = trace w1 @ evs" and
        ev: "\<forall>e \<in> set evs. \<exists>s \<in> set xs. \<exists>res. ID s = i \<and> e = EvDeleteDatabase (UID (Credentials s)) res" and
        rs: "(case r of
          None \<Rightarrow> (\<forall>uid err. EvDeleteDatabase uid (Some err) \<notin> set evs) \<and>
             left' = left @ filter (\<lambda>s. ID s \<noteq> i) xs \<and>
             removed' = (True \<or> (\<exists>s \<in> set xs. ID s = i))
        | Some err \<Rightarrow> (\<exists>evs' uid. evs = evs' @ [EvDeleteDatabase uid (Some err)] \<and>
             (\<forall>uid e. EvDeleteDatabase uid (Some e) \<notin> set evs')))"
        by blast
      let ?evs = "EvDeleteDatabase (UID (Credentials x)) None # evs"
      have 1: "trace w' = trace w @ ?evs"
        using tr eff(1) None by simp
      have 2: "\<forall>e \<in> set ?evs. \<exists>s \<in> set (x # xs). \<exists>res. ID s = i \<and> e = EvDeleteDatabase (UID (Credentials s)) res"
        using ev True by auto
      have 3: "(case r of
          None \<Rightarrow> (\<forall>uid err. EvDeleteDatabase uid (Some err) \<notin> set ?evs) \<and>
             left' = left @ filter (\<lambda>s. ID s \<noteq> i) (x # xs) \<and>
             removed' = (removed \<or> (\<exists>s \<in> set (x # xs). ID s = i))
        | Some err \<Rightarrow> (\<exists>evs' uid. ?evs = evs' @ [EvDeleteDatabase uid (Some err)] \<and>
             (\<forall>uid e. EvDeleteDatabase uid (Some e) \<notin> set evs')))"
      proof (cases r)
        case None
        with rs True show ?thesis by simp
      next
        case (Some err)
        with rs obtain evs' uid where e': "evs = evs' @ [EvDeleteDatabase uid (Some err)]"
          and n': "\<forall>uid e. EvDeleteDatabase uid (Some e) \<notin> set evs'"
          by auto
        have "?evs = (EvDeleteDatabase (UID (Credentials x)) None # evs') @ [EvDeleteDatabase uid (Some err)]"
          using e' by simp
        moreover have "\<forall>uid e. EvDeleteDatabase uid (Some e) \<notin> set (EvDeleteDatabase (UID (Credentials x)) None # evs')"
          using n' by simp
        ultimately have "\<exists>evs' uid. ?evs = evs' @ [EvDeleteDatabase uid (Some err)] \<and>
             (\<forall>uid e. EvDeleteDatabase uid (Some e) \<notin> set evs')"
          by blast
        then show ?thesis using Some by simp
      qed
      have "store w' = store w"
        using st eff(2) by simp
      moreover from 1 2 3 have "\<exists>evs. trace w' = trace w @ evs \<and>
         (\<forall>e \<in> set evs. \<exists>s \<in> set (x # xs). \<exists>res. ID s = i \<and> e = EvDeleteDatabase (UID (Credentials s)) res) \<and>
         (case r of
          None \<Rightarrow> (\<forall>uid err. EvDeleteDatabase uid (Some err) \<notin> set evs) \<and>
             left' = left @ filter (\<lambda>s. ID s \<noteq> i) (x # xs) \<and>
             removed' = (removed \<or> (\<exists>s \<in> set (x # xs). ID s = i))
        | Some err \<Rightarrow> (\<exists>evs' uid. evs = evs' @ [EvDeleteDatabase uid (Some err)] \<and>
             (\<forall>uid e. EvDeleteDatabase uid (Some e) \<notin> set evs')))"
        by - (rule exI [of _ ?evs], (intro conjI; assumption))
      ultimately show ?thesis ..
    qed
  qed
qed

text \<open>
  The three ways \<open>Destroy\<close> ends once the state is loaded: a \<^verbatim>\<open>DeleteDatabase\<close> call
  failed; no record has the ID; or every record with the ID was deleted and the other
  records were passed to \<open>Save\<close>.
\<close>

lemma Destroy_cases [consumes 2, case_names delete_failed not_found saved]:
  assumes load: "Load persister (store w) = Inr state"
    and run: "Destroy d i persister w = (r, w')"
  obtains
    dels uid err where
      "\<forall>e \<in> set dels. \<exists>s \<in> set (AvailableInstances state).
          ID s = i \<and> e = EvDeleteDatabase (UID (Credentials s)) None"
      "\<exists>s \<in> set (AvailableInstances state). ID s = i \<and> UID (Credentials s) = uid"
      "r = Some err"
      "trace w' = trace w @ EvLoad (Inr state) # dels @ [EvDeleteDatabase uid (Some err)]"
      "store w' = store w"
  | "\<forall>s \<in> set (AvailableInstances state). ID s \<noteq> i"
      "r = Some ErrInstanceDoesNotExist"
      "w' = w\<lparr>trace := trace w @ [EvLoad (Inr state)]\<rparr>"
  | dels where
      "\<forall>e \<in> set dels. \<exists>s \<in> set (AvailableInstances state).
          ID s = i \<and> e = EvDeleteDatabase (UID (Credentials s)) None"
      "\<exists>s \<in> set (AvailableInstances state). ID s = i"
      "r = fst (Save persister
          (state\<lparr>AvailableInstances := filter (\<lambda>s. ID s \<noteq> i) (AvailableInstances state)\<rparr>)
          (store w))"
      "store w' = snd (Save persister
          (state\<lparr>AvailableInstances := filter (\<lambda>s. ID s \<noteq> i) (AvailableInstances state)\<rparr>)
          (store w))"
      "trace w' = trace w @ EvLoad (Inr state) # dels @
          [EvSave (state\<lparr>AvailableInstances :=
              filter (\<lambda>s. ID s \<noteq> i) (AvailableInstances state)\<rparr>) r]"
proof -
  let ?w1 = "emit (EvLoad (Inr state)) w"
  let ?xs = "AvailableInstances state"
  obtain q w2 where q: "destroyLoop d i ?xs [] False ?w1 = (q, w2)"
    by (cases "destroyLoop d i ?xs [] False ?w1")
  obtain r0 left' removed' where "q = (r0, left', removed')"
    by (cases q)
  with q have loop: "destroyLoop d i ?xs [] False ?w1 = ((r0, left', removed'), w2)"
    by simp
  from destroyLoop_spec [OF loop] obtain dels where
    st: "store w2 = store ?w1" and tr: "trace w2 = trace ?w1 @ dels" and
    ev: "\<forall>e \<in> set dels. \<exists>s \<in> set ?xs. \<exists>res. ID s = i \<and> e = EvDeleteDatabase (UID (Credentials s)) res" and
    rs: "(case r0 of
          None \<Rightarrow> (\<forall>uid err. EvDeleteDatabase uid (Some err) \<notin> set dels) \<and>
             left' = [] @ filter (\<lambda>s. ID s \<noteq> i) ?xs \<and>
             removed' = (False \<or> (\<exists>s \<in> set ?xs. ID s = i))
        | Some err \<Rightarrow> (\<exists>evs' uid. dels = evs' @ [EvDeleteDatabase uid (Some err)] \<and>
             (\<forall>uid e. EvDeleteDatabase uid (Some e) \<notin> set evs')))"
    by blast
  have st': "store w2 = store w" and tr': "trace w2 = trace w @ EvLoad (Inr state) # dels"
    using st tr by (simp_all add: emit_def)
  have unfolded: "Destroy d i persister w =
      (case ((r0, left', removed'), w2) of
         ((Some err, instancesLeft, removed), w2) \<Rightarrow> (Some err, w2)
       | ((None, instancesLeft, removed), w2) \<Rightarrow>
           if \<not> removed then (Some ErrInstanceDoesNotExist, w2)
           else
             let state' = state\<lparr>AvailableInstances := instancesLeft\<rparr> in
             (case Save persister state' (store w2) of
                (saved, p') \<Rightarrow>
                  let w3 = emit (EvSave state' saved) (w2\<lparr>store := p'\<rparr>) in
                  (case saved of
                     Some err \<Rightarrow> (Some err, w3)
                   | None \<Rightarrow> (None, w3))))"
    using load loop by (simp add: Destroy_def)
  have succeeded: "\<forall>e \<in> set ds. \<exists>s \<in> set ?xs. ID s = i \<and> e = EvDeleteDatabase (UID (Credentials s)) None"
    if "set ds \<subseteq> set dels" "\<forall>uid e. EvDeleteDatabase uid (Some e) \<notin> set ds" for ds
  proof
    fix e assume e: "e \<in> set ds"
    with that(1) ev obtain s res where
      s: "s \<in> set ?xs" "ID s = i" "e = EvDeleteDatabase (UID (Credentials s)) res"
      by blast
    with e that(2) have "res = None"
      by (cases res) auto
    with s show "\<exists>s \<in> set ?xs. ID s = i \<and> e = EvDeleteDatabase (UID (Credentials s)) None"
      by blast
  qed
  show thesis
  proof (cases r0)
    case (Some err)
    with unfolded run have res: "r = Some err" "w' = w2"
      by simp_all
    from rs Some obtain dels' uid where
      d: "dels = dels' @ [EvDeleteDatabase uid (Some err)]"
      and n: "\<forall>uid e. EvDeleteDatabase uid (Some e) \<notin> set dels'"
      by auto
    have "\<forall>e \<in> set dels'. \<exists>s \<in> set ?xs. ID s = i \<and> e = EvDeleteDatabase (UID (Credentials s)) None"
      using d n by (intro succeeded) auto
    moreover have "\<exists>s \<in> set ?xs. ID s = i \<and> UID (Credentials s) = uid"
      using ev d by auto
    moreover have "trace w' = trace w @ EvLoad (Inr state) # dels' @ [EvDeleteDatabase uid (Some err)]"
      using tr' d res by simp
    ultimately show thesis
      using res st' by (intro that(1)) simp_all
  next
    case None
    note r0 = None
    from rs None have nofail: "\<forall>uid err. EvDeleteDatabase uid (Some err) \<notin> set dels"
      and left: "left' = filter (\<lambda>s. ID s \<noteq> i) ?xs"
      and removed: "removed' = (\<exists>s \<in> set ?xs. ID s = i)"
      by simp_all
    show thesis
    proof (cases removed')
      case False
      with removed have none: "\<forall>s \<in> set ?xs. ID s \<noteq> i"
        by simp
      with destroyLoop_skip [of ?xs i d "[]" "[]" False ?w1] loop have "w2 = ?w1"
        by simp
      with unfolded run r0 False have "r = Some ErrInstanceDoesNotExist"
        "w' = w\<lparr>trace := trace w @ [EvLoad (Inr state)]\<rparr>"
        by (simp_all add: emit_def)
      with none show thesis
        by (intro that(2))
    next
      case True
      let ?st = "state\<lparr>AvailableInstances := filter (\<lambda>s. ID s \<noteq> i) ?xs\<rparr>"
      obtain saved p' where sv: "Save persister ?st (store w) = (saved, p')"
        by (cases "Save persister ?st (store w)")
      from unfolded run r0 True left sv st' have
        "r = saved" "w' = emit (EvSave ?st saved) (w2\<lparr>store := p'\<rparr>)"
        by (auto simp: Let_def split: option.splits)
      then have "r = fst (Save persister ?st (store w))"
        "store w' = snd (Save persister ?st (store w))"
        "trace w' = trace w @ EvLoad (Inr state) # dels @ [EvSave ?st r]"
        using sv tr' by (simp_all add: emit_def)
      moreover have "\<forall>e \<in> set dels. \<exists>s \<in> set ?xs. ID s = i \<and> e = EvDeleteDatabase (UID (Credentials s)) None"
        using nofail by (intro succeeded) auto
      moreover have "\<exists>s \<in> set ?xs. ID s = i"
        using True removed by simp
      ultimately show thesis
        by (intro that(3))
    qed
  qed
qed

subsection \<open>The loop of Update\<close>

lemma updateLoop_skip:
  "\<forall>x \<in> set pre. ID x \<noteq> i \<Longrightarrow>
    updateLoop d i params (pre @ rest) w = updateLoop d i params rest w"
  by (induction pre) simp_all

lemma updateLoop_effect:
  "updateLoop d i params xs w = (r, w') \<Longrightarrow>
    store w' = store w \<and>
    (\<exists>evs. trace w' = trace w @ evs \<and> (\<forall>st sv. EvSave st sv \<notin> set evs))"
  by (induction xs) (auto simp: updateDatabase_def emit_def split: if_splits prod.splits)

lemma Update_effect:
  assumes run: "Update d instanceID params persister w = (r, w')"
  shows "store w' = store w"
    and "\<exists>evs. trace w' = trace w @ evs \<and> (\<forall>st sv. EvSave st sv \<notin> set evs)"
proof -
  let ?w1 = "emit (EvLoad (Load persister (store w))) w"
  have "store w' = store w \<and>
      (\<exists>evs. trace w' = trace w @ evs \<and> (\<forall>st sv. EvSave st sv \<notin> set evs))"
  proof (cases "Load persister (store w)")
    case (Inl err)
    with run have "w' = ?w1"
      by (auto simp: Update_def)
    then show ?thesis
      by (simp add: emit_def)
  next
    case (Inr state)
    with run have "updateLoop d instanceID params (AvailableInstances state) ?w1 = (r, w')"
      by (simp add: Update_def)
    from updateLoop_effect [OF this] obtain evs where
      "store w' = store w"
      "trace w' = trace w @ EvLoad (Load persister (store w)) # evs"
      "\<forall>st sv. EvSave st sv \<notin> set evs"
      by (auto simp: emit_def)
    then show ?thesis
      by - (rule conjI, assumption, rule exI, erule conjI, simp)
  qed
  then show "store w' = store w"
    and "\<exists>evs. trace w' = trace w @ evs \<and> (\<forall>st sv. EvSave st sv \<notin> set evs)"
    by simp_all
qed

subsection \<open>The mutex\<close>

text \<open>
  In a run of \<open>Create\<close> the lock is taken first and released last, on every way out,
  and not touched in between; the runs of \<open>Destroy\<close> and \<open>Update\<close> do not touch it.
\<close>

lemma Create_lock_events:
  "\<exists>evs. trace (snd (Create d instanceID settings persister w)) = trace w @ EvLock # evs @ [EvUnlock]
     \<and> EvLock \<notin> set evs \<and> EvUnlock \<notin> set evs"
  by (auto simp: Create_def createDatabase_def emit_def Let_def
      split: prod.splits sum.splits option.splits)

lemma destroyLoop_lock_events:
  "destroyLoop d i xs left removed w = (q, w') \<Longrightarrow>
    \<exists>evs. trace w' = trace w @ evs \<and> EvLock \<notin> set evs \<and> EvUnlock \<notin> set evs"
proof (induction xs arbitrary: left removed w)
  case Nil
  then show ?case by auto
next
  case (Cons x xs)
  show ?case
  proof (cases "ID x = i")
    case False
    with Cons show ?thesis by simp
  next
    case True
    obtain res w1 where del: "deleteDatabase d (UID (Credentials x)) w = (res, w1)"
      by (cases "deleteDatabase d (UID (Credentials x)) w")
    note eff = deleteDatabase_effect(1) [OF del]
    show ?thesis
    proof (cases res)
      case (Some err)
      with Cons.prems True del have "w' = w1"
        by simp
      with eff show ?thesis
        by simp
    next
      case None
      with Cons.prems True del have "destroyLoop d i xs left True w1 = (q, w')"
        by simp
      from Cons.IH [OF this] obtain evs where
        "trace w' = trace w1 @ evs" "EvLock \<notin> set evs" "EvUnlock \<notin> set evs"
        by blast
      with eff have "trace w' = trace w @ EvDeleteDatabase (UID (Credentials x)) res # evs
          \<and> EvLock \<notin> set (EvDeleteDatabase (UID (Credentials x)) res # evs)
          \<and> EvUnlock \<notin> set (EvDeleteDatabase (UID (Credentials x)) res # evs)"
        by simp
      then show ?thesis
        by blast
    qed
  qed
qed

lemma Destroy_lock_events:
  "\<exists>evs. trace (snd (Destroy d instanceID persister w)) = trace w @ evs
     \<and> EvLock \<notin> set evs \<and> EvUnlock \<notin> set evs"
proof (cases "Load persister (store w)")
  case (Inl err)
  then show ?thesis
    by (simp add: Destroy_def emit_def)
next
  case (Inr state)
  let ?w1 = "emit (EvLoad (Inr state)) w"
  obtain q w2 where loop: "destroyLoop d instanceID (AvailableInstances state) [] False ?w1 = (q, w2)"
    by (cases "destroyLoop d instanceID (AvailableInstances state) [] False ?w1")
  from destroyLoop_lock_events [OF loop] obtain evs where
    evs: "trace w2 = trace w @ EvLoad (Inr state) # evs" "EvLock \<notin> set evs" "EvUnlock \<notin> set evs"
    by (auto simp: emit_def)
  obtain r left' removed' where q: "q = (r, left', removed')"
    by (cases q)
  show ?thesis
    using Inr loop q evs
    by (auto simp: Destroy_def Let_def emit_def split: option.splits prod.splits)
qed

lemma Update_lock_events:
  "\<exists>evs. trace (snd (Update d instanceID params persister w)) = trace w @ evs
     \<and> EvLock \<notin> set evs \<and> EvUnlock \<notin> set evs"
proof -
  have loop: "\<exists>evs. trace (snd (updateLoop d instanceID params xs w1)) = trace w1 @ evs
     \<and> EvLock \<notin> set evs \<and> EvUnlock \<notin> set evs" for xs and w1 :: "('a, 'b) world"
    by (induction xs) (auto simp: updateDatabase_def emit_def split: prod.splits)
  show ?thesis
  proof (cases "Load persister (store w)")
    case (Inl err)
    then show ?thesis
      by (simp add: Update_def emit_def)
  next
    case (Inr state)
    from loop [of "AvailableInstances state" "emit (EvLoad (Inr state)) w"] Inr show ?thesis
      by (auto simp: Update_def emit_def)
  qed
qed

subsection \<open>What Create saves\<close>

lemma Create_saves:
  assumes load: "Load persister (store w) = Inr state"
  shows "\<exists>evs. trace (snd (Create d instanceID settings persister w)) = trace w @ evs \<and>
     (\<forall>st r. EvSave st r \<in> set evs \<longrightarrow>
        (\<forall>s \<in> set (AvailableInstances state). ID s \<noteq> instanceID) \<and>
        (\<exists>credentials. st = state\<lparr>AvailableInstances :=
            AvailableInstances state @ [\<lparr>ID = instanceID, Credentials = credentials\<rparr>]\<rparr>))"
  using load
  by (auto simp: Create_def createDatabase_def instanceFound_iff emit_def Let_def
      split: prod.splits sum.splits option.splits)

text \<open>
  A \<open>Create\<close> that returns nil loaded a state without the ID and saved it, with a record
  of the ID appended, leaving the store of the world it ends in.
\<close>

lemma Create_nil_saved:
  assumes "Create d instanceID settings persister w0 = (Return None, w)"
  shows "\<exists>state0 credentials.
      Load persister (store w0) = Inr state0 \<and>
      (\<forall>s \<in> set (AvailableInstances state0). ID s \<noteq> instanceID) \<and>
      Save persister
        (state0\<lparr>AvailableInstances :=
           AvailableInstances state0 @ [\<lparr>ID = instanceID, Credentials = credentials\<rparr>]\<rparr>)
        (store w0) = (None, store w)"
  using assms
  by (auto simp: Create_def createDatabase_def instanceFound_iff emit_def Let_def
      split: prod.splits sum.splits option.splits if_splits)

subsection \<open>Create\<close>

text \<open>
  Claim C1. When the state loads, no record of it has the given ID, the client accepts
  the request and the channel delivers credentials before the timer is ready, \<open>Create\<close>
  calls \<open>Save\<close> once, with the loaded state and one new record
  \<open>\<lparr>ID = instanceID, Credentials = credentials\<rparr>\<close> appended at its end (the records
  loaded stay as they are, in their order); the store is what that \<open>Save\<close> leaves, and
  \<open>Create\<close> returns nil when \<open>Save\<close> does (\<open>ErrFailedToSaveState\<close> otherwise). The
  events of the run are exactly: lock, load, create database, save, unlock.
\<close>

theorem Create_appends_record:
  assumes load: "Load persister (store w) = Inr state"
    and fresh: "\<forall>s \<in> set (AvailableInstances state). ID s \<noteq> instanceID"
    and accepted:
      "CreateDatabase (apiClient d) settings (cluster w) = (Inr (Delivers t credentials), c')"
    and in_time: "int t < timerDuration (WaitingForDatabaseTimeout w)"
    and save: "Save persister
        (state\<lparr>AvailableInstances :=
           AvailableInstances state @ [\<lparr>ID = instanceID, Credentials = credentials\<rparr>]\<rparr>)
        (store w) = (saved, p')"
  shows "Create d instanceID settings persister w =
      (Return (case saved of None \<Rightarrow> None | Some err \<Rightarrow> Some ErrFailedToSaveState),
       w\<lparr>store := p', cluster := c',
         trace := trace w @
           [EvLock, EvLoad (Inr state),
            EvCreateDatabase settings (Inr (Delivers t credentials)),
            EvSave (state\<lparr>AvailableInstances :=
               AvailableInstances state @ [\<lparr>ID = instanceID, Credentials = credentials\<rparr>]\<rparr>)
              saved,
            EvUnlock]\<rparr>)"
proof -
  have nf: "\<not> instanceFound instanceID (AvailableInstances state)"
    using fresh by (simp add: instanceFound_iff)
  have sel: "selectReceive (Delivers t credentials) (timerDuration (WaitingForDatabaseTimeout w))
      (selectPicksReceive w) = Some credentials"
    using in_time by (simp add: selectReceive_def)
  have cd: "createDatabase d settings (emit (EvLoad (Inr state)) (emit EvLock w)) =
      ((credentials, None),
       emit (EvCreateDatabase settings (Inr (Delivers t credentials)))
         ((emit (EvLoad (Inr state)) (emit EvLock w))\<lparr>cluster := c'\<rparr>))"
    using accepted sel by (simp add: createDatabase_def emit_def)
  show ?thesis
    using load nf save
    by (cases saved) (simp_all add: Create_def cd store_emit, simp_all add: emit_def)
qed

text \<open>
  The scenario of the claim: from the empty state, with \<^verbatim>\<open>{UID: 7}\<close> delivered after one
  second, \<open>Create\<close> of \<open>''x''\<close> returns nil and the state stored is
  \<open>[\<lparr>ID = ''x'', Credentials = {UID: 7}\<rparr>]\<close>.
\<close>

theorem Create_appends_record_witness:
  "Create (scriptedCreator (Inr (Delivers 1000000000 (credentialsUID 7))) None None)
      ''x'' Map.empty snapshotPersister (worldWith []) =
    (Return None,
     \<lparr>store = \<lparr>AvailableInstances = [\<lparr>ID = ''x'', Credentials = credentialsUID 7\<rparr>]\<rparr>,
      cluster = [],
      WaitingForDatabaseTimeout = 15,
      selectPicksReceive = False,
      trace =
        [EvLock, EvLoad (Inr \<lparr>AvailableInstances = []\<rparr>),
         EvCreateDatabase Map.empty (Inr (Delivers 1000000000 (credentialsUID 7))),
         EvSave \<lparr>AvailableInstances = [\<lparr>ID = ''x'', Credentials = credentialsUID 7\<rparr>]\<rparr> None,
         EvUnlock]\<rparr>)"
proof -
  let ?d = "scriptedCreator (Inr (Delivers 1000000000 (credentialsUID 7))) None None"
  let ?state = "\<lparr>AvailableInstances = []\<rparr>"
  have load: "Load snapshotPersister (store (worldWith [])) = Inr ?state"
    by (simp add: snapshotPersister_def worldWith_def)
  have fresh: "\<forall>s \<in> set (AvailableInstances ?state). ID s \<noteq> ''x''"
    by simp
  have accepted: "CreateDatabase (apiClient ?d) Map.empty (cluster (worldWith [])) =
      (Inr (Delivers 1000000000 (credentialsUID 7)), [])"
    by (simp add: scriptedCreator_def scriptedClient_def worldWith_def)
  have in_time: "int 1000000000 < timerDuration (WaitingForDatabaseTimeout (worldWith []))"
    by (simp add: worldWith_def timerDuration_default)
  have save: "Save snapshotPersister
      (?state\<lparr>AvailableInstances :=
         AvailableInstances ?state @ [\<lparr>ID = ''x'', Credentials = credentialsUID 7\<rparr>]\<rparr>)
      (store (worldWith [])) =
      (None, \<lparr>AvailableInstances = [\<lparr>ID = ''x'', Credentials = credentialsUID 7\<rparr>]\<rparr>)"
    by (simp add: snapshotPersister_def)
  show ?thesis
    using Create_appends_record [OF load fresh accepted in_time save]
    by (simp add: worldWith_def defaultWaitingForDatabaseTimeout_def)
qed

text \<open>
  Claim C2. When the state loads and some record of it has the given ID, \<open>Create\<close>
  returns \<open>ErrInstanceExists\<close>; the events of the run are exactly lock, load, unlock, so
  the client is not asked for a database and \<open>Save\<close> is not called; the store and the
  cluster are as before, so loading again gives the same state. That state still has
  exactly one record with the ID: when its IDs are pairwise distinct, and also, with no
  such condition, when this call follows a \<open>Create\<close> of the same ID that returned nil on
  a persister whose \<open>Load\<close> returns what a successful \<open>Save\<close> was given (creating the same
  ID twice).
\<close>

theorem Create_existing_instance:
  assumes load: "Load persister (store w) = Inr state"
    and found: "\<exists>s \<in> set (AvailableInstances state). ID s = instanceID"
  shows "Create d instanceID settings persister w =
      (Return (Some ErrInstanceExists),
       w\<lparr>trace := trace w @ [EvLock, EvLoad (Inr state), EvUnlock]\<rparr>)
    \<and> Load persister (store (snd (Create d instanceID settings persister w))) = Inr state
    \<and> (distinct (map ID (AvailableInstances state)) \<longrightarrow>
         length (filter (\<lambda>s. ID s = instanceID) (AvailableInstances state)) = 1)
    \<and> (\<forall>d0 settings0 w0.
          Create d0 instanceID settings0 persister w0 = (Return None, w) \<and>
          (\<forall>st p p'. Save persister st p = (None, p') \<longrightarrow> Load persister p' = Inr st) \<longrightarrow>
          length (filter (\<lambda>s. ID s = instanceID) (AvailableInstances state)) = 1)"
proof -
  have f: "instanceFound instanceID (AvailableInstances state)"
    using found by (simp add: instanceFound_iff)
  have run: "Create d instanceID settings persister w =
      (Return (Some ErrInstanceExists),
       w\<lparr>trace := trace w @ [EvLock, EvLoad (Inr state), EvUnlock]\<rparr>)"
    using load f by (simp add: Create_def store_emit) (simp add: emit_def)
  have one: "length (filter (\<lambda>s. ID s = instanceID) (AvailableInstances state)) = 1"
    if "distinct (map ID (AvailableInstances state))"
    using found that by (auto simp: one_record_with_ID)
  have twice: "length (filter (\<lambda>s. ID s = instanceID) (AvailableInstances state)) = 1"
    if first: "Create d0 instanceID settings0 persister w0 = (Return None, w)"
      and contract: "\<forall>st p p'. Save persister st p = (None, p') \<longrightarrow> Load persister p' = Inr st"
    for d0 settings0 and w0 :: "('a, 'b) world"
  proof -
    from Create_nil_saved [OF first] obtain state0 credentials where
      fresh: "\<forall>s \<in> set (AvailableInstances state0). ID s \<noteq> instanceID" and
      saved: "Save persister
        (state0\<lparr>AvailableInstances :=
           AvailableInstances state0 @ [\<lparr>ID = instanceID, Credentials = credentials\<rparr>]\<rparr>)
        (store w0) = (None, store w)"
      by blast
    from contract saved have "Load persister (store w) =
        Inr (state0\<lparr>AvailableInstances :=
           AvailableInstances state0 @ [\<lparr>ID = instanceID, Credentials = credentials\<rparr>]\<rparr>)"
      by blast
    with load have "AvailableInstances state =
        AvailableInstances state0 @ [\<lparr>ID = instanceID, Credentials = credentials\<rparr>]"
      by auto
    moreover from fresh have "filter (\<lambda>s. ID s = instanceID) (AvailableInstances state0) = []"
      by (simp add: filter_empty_conv)
    ultimately show ?thesis
      by simp
  qed
  show ?thesis
    using run load one twice by simp blast
qed

text \<open>
  Creating \<open>''x''\<close> twice: the first \<open>Create\<close> starts from the empty state and returns
  nil; the second, run in the world the first one left, is refused, and \<open>''x''\<close> is stored
  once.
\<close>

theorem Create_existing_instance_witness:
  "Create (scriptedCreator (Inr (Delivers 0 (credentialsUID 7))) None None)
      ''x'' Map.empty snapshotPersister (worldWith []) =
    (Return None,
     \<lparr>store = \<lparr>AvailableInstances = [\<lparr>ID = ''x'', Credentials = credentialsUID 7\<rparr>]\<rparr>,
      cluster = [],
      WaitingForDatabaseTimeout = 15,
      selectPicksReceive = False,
      trace =
        [EvLock, EvLoad (Inr \<lparr>AvailableInstances = []\<rparr>),
         EvCreateDatabase Map.empty (Inr (Delivers 0 (credentialsUID 7))),
         EvSave \<lparr>AvailableInstances = [\<lparr>ID = ''x'', Credentials = credentialsUID 7\<rparr>]\<rparr> None,
         EvUnlock]\<rparr>)
   \<and> Create (scriptedCreator (Inr (Delivers 0 (credentialsUID 8))) None None)
      ''x'' Map.empty snapshotPersister
      \<lparr>store = \<lparr>AvailableInstances = [\<lparr>ID = ''x'', Credentials = credentialsUID 7\<rparr>]\<rparr>,
       cluster = [],
       WaitingForDatabaseTimeout = 15,
       selectPicksReceive = False,
       trace =
         [EvLock, EvLoad (Inr \<lparr>AvailableInstances = []\<rparr>),
          EvCreateDatabase Map.empty (Inr (Delivers 0 (credentialsUID 7))),
          EvSave \<lparr>AvailableInstances = [\<lparr>ID = ''x'', Credentials = credentialsUID 7\<rparr>]\<rparr> None,
          EvUnlock]\<rparr> =
    (Return (Some ErrInstanceExists),
     \<lparr>store = \<lparr>AvailableInstances = [\<lparr>ID = ''x'', Credentials = credentialsUID 7\<rparr>]\<rparr>,
      cluster = [],
      WaitingForDatabaseTimeout = 15,
      selectPicksReceive = False,
      trace =
        [EvLock, EvLoad (Inr \<lparr>AvailableInstances = []\<rparr>),
         EvCreateDatabase Map.empty (Inr (Delivers 0 (credentialsUID 7))),
         EvSave \<lparr>AvailableInstances = [\<lparr>ID = ''x'', Credentials = credentialsUID 7\<rparr>]\<rparr> None,
         EvUnlock,
         EvLock,
         EvLoad (Inr \<lparr>AvailableInstances = [\<lparr>ID = ''x'', Credentials = credentialsUID 7\<rparr>]\<rparr>),
         EvUnlock]\<rparr>)
   \<and> length (filter (\<lambda>s. ID s = ''x'') [\<lparr>ID = ''x'', Credentials = credentialsUID 7\<rparr>]) = 1"
proof -
  let ?creator = "scriptedCreator (Inr (Delivers 0 (credentialsUID 7))) None None"
  let ?again = "scriptedCreator (Inr (Delivers 0 (credentialsUID 8))) None None"
  let ?x = "\<lparr>ID = ''x'', Credentials = credentialsUID 7\<rparr>"
  let ?state = "\<lparr>AvailableInstances = [?x]\<rparr>"
  let ?w = "\<lparr>store = ?state, cluster = [] :: int list,
       WaitingForDatabaseTimeout = 15, selectPicksReceive = False,
       trace =
         [EvLock, EvLoad (Inr \<lparr>AvailableInstances = []\<rparr>),
          EvCreateDatabase Map.empty (Inr (Delivers 0 (credentialsUID 7))),
          EvSave ?state None, EvUnlock]\<rparr>"
  have first: "Create ?creator ''x'' Map.empty snapshotPersister (worldWith []) = (Return None, ?w)"
    by (simp add: Create_def Let_def createDatabase_def selectReceive_def timerDuration_def
        wrap64_def emit_def scriptedCreator_def scriptedClient_def snapshotPersister_def
        worldWith_def defaultWaitingForDatabaseTimeout_def)
  have contract: "\<forall>st p p'. Save snapshotPersister st p = (None, p') \<longrightarrow>
      Load snapshotPersister p' = Inr st"
    by (simp add: snapshotPersister_def)
  have load: "Load snapshotPersister (store ?w) = Inr ?state"
    by (simp add: snapshotPersister_def)
  have found: "\<exists>s \<in> set (AvailableInstances ?state). ID s = ''x''"
    by simp
  note inst = Create_existing_instance [OF load found, of ?again Map.empty]
  from inst first contract
  have "length (filter (\<lambda>s. ID s = ''x'') (AvailableInstances ?state)) = 1"
    by blast
  with inst first show ?thesis
    by simp
qed




subsection \<open>Destroy\<close>

text \<open>
  Claim C4. Once the state is loaded: whenever a \<^verbatim>\<open>DeleteDatabase\<close> call of the run
  fails, the call was for the UID of a record with the given ID, \<open>Destroy\<close> returns the
  error of that call, no \<open>Save\<close> is among the events of the run, the store is as before
  and loading again gives the same state, the record in it. And when the delete fails for
  the first record with the given ID, \<open>Destroy\<close> returns that error at once: the events
  of the run are the load and that one call.
\<close>

theorem Destroy_delete_failure:
  assumes load: "Load persister (store w) = Inr state"
    and run: "Destroy d instanceID persister w = (r, w')"
  shows "(\<exists>evs. trace w' = trace w @ evs \<and>
        (\<forall>uid err. EvDeleteDatabase uid (Some err) \<in> set evs \<longrightarrow>
           r = Some err \<and>
           (\<exists>s \<in> set (AvailableInstances state). ID s = instanceID \<and> UID (Credentials s) = uid) \<and>
           (\<forall>st sv. EvSave st sv \<notin> set evs) \<and>
           store w' = store w \<and> Load persister (store w') = Inr state))
    \<and> (\<forall>pre s post err c'.
          AvailableInstances state = pre @ s # post \<and> (\<forall>x \<in> set pre. ID x \<noteq> instanceID) \<and>
          ID s = instanceID \<and>
          DeleteDatabase (apiClient d) (UID (Credentials s)) (cluster w) = (Some err, c') \<longrightarrow>
          r = Some err \<and>
          w' = w\<lparr>cluster := c',
                 trace := trace w @
                   [EvLoad (Inr state), EvDeleteDatabase (UID (Credentials s)) (Some err)]\<rparr>)"
proof (intro conjI allI impI)
  from load run show "\<exists>evs. trace w' = trace w @ evs \<and>
        (\<forall>uid err. EvDeleteDatabase uid (Some err) \<in> set evs \<longrightarrow>
           r = Some err \<and>
           (\<exists>s \<in> set (AvailableInstances state). ID s = instanceID \<and> UID (Credentials s) = uid) \<and>
           (\<forall>st sv. EvSave st sv \<notin> set evs) \<and>
           store w' = store w \<and> Load persister (store w') = Inr state)"
  proof (cases rule: Destroy_cases)
    case (delete_failed dels uid err)
    from delete_failed(1) have "\<forall>st sv. EvSave st sv \<notin> set dels"
      and "\<forall>uid e. EvDeleteDatabase uid (Some e) \<notin> set dels"
      by auto
    with delete_failed(2-5) load show ?thesis
      by - (rule exI [of _ "EvLoad (Inr state) # dels @ [EvDeleteDatabase uid (Some err)]"], auto)
  next
    case not_found
    then show ?thesis
      by - (rule exI [of _ "[EvLoad (Inr state)]"], simp)
  next
    case (saved dels)
    from saved(1) have "\<forall>uid e. EvDeleteDatabase uid (Some e) \<notin> set dels"
      by auto
    with saved(5) show ?thesis
      by - (rule exI, erule conjI, simp)
  qed
next
  fix pre s post err c'
  assume a: "AvailableInstances state = pre @ s # post \<and> (\<forall>x \<in> set pre. ID x \<noteq> instanceID) \<and>
          ID s = instanceID \<and>
          DeleteDatabase (apiClient d) (UID (Credentials s)) (cluster w) = (Some err, c')"
  let ?w1 = "emit (EvLoad (Inr state)) w"
  have del: "deleteDatabase d (UID (Credentials s)) ?w1 =
      (Some err, emit (EvDeleteDatabase (UID (Credentials s)) (Some err)) (?w1\<lparr>cluster := c'\<rparr>))"
    using a by (simp add: deleteDatabase_def cluster_emit)
  have "destroyLoop d instanceID (AvailableInstances state) [] False ?w1 =
      destroyLoop d instanceID (s # post) ([] @ pre) False ?w1"
    using a destroyLoop_skip [of pre instanceID d "s # post" "[]" False ?w1] by simp
  also have "\<dots> = ((Some err, pre, False),
      emit (EvDeleteDatabase (UID (Credentials s)) (Some err)) (?w1\<lparr>cluster := c'\<rparr>))"
    using a del by simp
  finally have "Destroy d instanceID persister w =
      (Some err, emit (EvDeleteDatabase (UID (Credentials s)) (Some err)) (?w1\<lparr>cluster := c'\<rparr>))"
    using load by (simp add: Destroy_def)
  with run show "r = Some err"
    and "w' = w\<lparr>cluster := c',
                 trace := trace w @
                   [EvLoad (Inr state), EvDeleteDatabase (UID (Credentials s)) (Some err)]\<rparr>"
    by (auto simp: emit_def)
qed

text \<open>
  A run of it: the cluster cannot be reached; \<open>Destroy\<close> of \<open>''a''\<close> returns the
  client's error and the record stays stored.
\<close>

theorem Destroy_delete_failure_witness:
  "Destroy (scriptedCreator (Inl (OtherError ''unused'')) None (Some (OtherError ''cluster unreachable'')))
      ''a'' snapshotPersister (worldWith [\<lparr>ID = ''a'', Credentials = credentialsUID 1\<rparr>]) =
    (Some (OtherError ''cluster unreachable''),
     \<lparr>store = \<lparr>AvailableInstances = [\<lparr>ID = ''a'', Credentials = credentialsUID 1\<rparr>]\<rparr>,
      cluster = [1],
      WaitingForDatabaseTimeout = 15,
      selectPicksReceive = False,
      trace =
        [EvLoad (Inr \<lparr>AvailableInstances = [\<lparr>ID = ''a'', Credentials = credentialsUID 1\<rparr>]\<rparr>),
         EvDeleteDatabase 1 (Some (OtherError ''cluster unreachable''))]\<rparr>)
   \<and> Load snapshotPersister
        (store (snd (Destroy
          (scriptedCreator (Inl (OtherError ''unused'')) None (Some (OtherError ''cluster unreachable'')))
          ''a'' snapshotPersister (worldWith [\<lparr>ID = ''a'', Credentials = credentialsUID 1\<rparr>])))) =
      Inr \<lparr>AvailableInstances = [\<lparr>ID = ''a'', Credentials = credentialsUID 1\<rparr>]\<rparr>"
proof -
  let ?e = "OtherError ''cluster unreachable''"
  let ?d = "scriptedCreator (Inl (OtherError ''unused'')) None (Some ?e)"
  let ?s = "\<lparr>ID = ''a'', Credentials = credentialsUID 1\<rparr>"
  let ?w = "worldWith [?s]"
  let ?state = "\<lparr>AvailableInstances = [?s]\<rparr>"
  let ?r = "fst (Destroy ?d ''a'' snapshotPersister ?w)"
  let ?w' = "snd (Destroy ?d ''a'' snapshotPersister ?w)"
  have load: "Load snapshotPersister (store ?w) = Inr ?state"
    by (simp add: snapshotPersister_def worldWith_def)
  have run: "Destroy ?d ''a'' snapshotPersister ?w = (?r, ?w')"
    by simp
  have first: "AvailableInstances ?state = [] @ ?s # [] \<and> (\<forall>x \<in> set []. ID x \<noteq> ''a'') \<and>
      ID ?s = ''a'' \<and>
      DeleteDatabase (apiClient ?d) (UID (Credentials ?s)) (cluster ?w) = (Some ?e, [1])"
    by (simp add: scriptedCreator_def scriptedClient_def worldWith_def credentialsUID_def)
  note inst = Destroy_delete_failure [OF load run]
  from inst first
  have outcome: "?r = Some ?e \<and>
      ?w' = ?w\<lparr>cluster := [1],
           trace := trace ?w @
             [EvLoad (Inr ?state), EvDeleteDatabase (UID (Credentials ?s)) (Some ?e)]\<rparr>"
    by blast
  from inst obtain evs where evs: "trace ?w' = trace ?w @ evs"
    and failed: "\<forall>uid err. EvDeleteDatabase uid (Some err) \<in> set evs \<longrightarrow>
           ?r = Some err \<and>
           (\<exists>s \<in> set (AvailableInstances ?state). ID s = ''a'' \<and> UID (Credentials s) = uid) \<and>
           (\<forall>st sv. EvSave st sv \<notin> set evs) \<and>
           store ?w' = store ?w \<and> Load snapshotPersister (store ?w') = Inr ?state"
    by blast
  from outcome have "trace ?w' = trace ?w @
      [EvLoad (Inr ?state), EvDeleteDatabase (UID (Credentials ?s)) (Some ?e)]"
    by simp
  with evs have "evs = [EvLoad (Inr ?state), EvDeleteDatabase (UID (Credentials ?s)) (Some ?e)]"
    by simp
  then have "EvDeleteDatabase (UID (Credentials ?s)) (Some ?e) \<in> set evs"
    by simp
  with failed have "Load snapshotPersister (store ?w') = Inr ?state"
    by blast
  with outcome show ?thesis
    by (simp add: prod_eq_iff worldWith_def defaultWaitingForDatabaseTimeout_def credentialsUID_def)
qed

text \<open>
  Claim C5. When the state loads, some record has the given ID, and no
  \<^verbatim>\<open>DeleteDatabase\<close> call and no \<open>Save\<close> call of the run fails, \<open>Destroy\<close> returns nil; the
  events of the run are the load, then successful deletes, each for the UID of a record
  with the ID, then one \<open>Save\<close> of the loaded state with \<^verbatim>\<open>AvailableInstances\<close> filtered:
  the records with the ID left out, the others in their order. That \<open>Save\<close> returns nil
  and the store is what it leaves.
\<close>

theorem Destroy_persists_filtered:
  assumes load: "Load persister (store w) = Inr state"
    and match: "\<exists>s \<in> set (AvailableInstances state). ID s = instanceID"
    and run: "Destroy d instanceID persister w = (r, w')"
    and events: "trace w' = trace w @ evs"
    and deleted: "\<forall>uid err. EvDeleteDatabase uid (Some err) \<notin> set evs"
    and saved: "\<forall>st err. EvSave st (Some err) \<notin> set evs"
  shows "r = None
    \<and> (\<exists>dels. evs = EvLoad (Inr state) # dels @
          [EvSave (state\<lparr>AvailableInstances :=
              filter (\<lambda>s. ID s \<noteq> instanceID) (AvailableInstances state)\<rparr>) None] \<and>
        (\<forall>e \<in> set dels. \<exists>s \<in> set (AvailableInstances state).
            ID s = instanceID \<and> e = EvDeleteDatabase (UID (Credentials s)) None))
    \<and> Save persister
          (state\<lparr>AvailableInstances :=
              filter (\<lambda>s. ID s \<noteq> instanceID) (AvailableInstances state)\<rparr>) (store w) =
        (None, store w')"
  using load run
proof (cases rule: Destroy_cases)
  case (delete_failed dels uid err)
  from delete_failed(4) events have "EvDeleteDatabase uid (Some err) \<in> set evs"
    by simp
  with deleted show ?thesis
    by blast
next
  case not_found
  with match show ?thesis
    by blast
next
  case (saved dels)
  let ?st = "state\<lparr>AvailableInstances :=
      filter (\<lambda>s. ID s \<noteq> instanceID) (AvailableInstances state)\<rparr>"
  from saved(5) events have evs: "evs = EvLoad (Inr state) # dels @ [EvSave ?st r]"
    by simp
  with assms(6) have r: "r = None"
    by (cases r) auto
  moreover from saved(3,4) r have "Save persister ?st (store w) = (None, store w')"
    by (simp add: prod_eq_iff)
  ultimately show ?thesis
    using evs saved(1) by simp
qed

text \<open>
  The scenario of the claim: \<open>[\<lparr>ID = ''a'', Credentials = {UID: 1}\<rparr>]\<close> is stored and
  \<^verbatim>\<open>DeleteDatabase(1)\<close> succeeds; \<open>Destroy\<close> of \<open>''a''\<close> returns nil and the state stored
  is empty.
\<close>

theorem Destroy_persists_filtered_witness:
  "Destroy (scriptedCreator (Inl (OtherError ''unused'')) None None)
      ''a'' snapshotPersister (worldWith [\<lparr>ID = ''a'', Credentials = credentialsUID 1\<rparr>]) =
    (None,
     \<lparr>store = \<lparr>AvailableInstances = []\<rparr>,
      cluster = [1],
      WaitingForDatabaseTimeout = 15,
      selectPicksReceive = False,
      trace =
        [EvLoad (Inr \<lparr>AvailableInstances = [\<lparr>ID = ''a'', Credentials = credentialsUID 1\<rparr>]\<rparr>),
         EvDeleteDatabase 1 None,
         EvSave \<lparr>AvailableInstances = []\<rparr> None]\<rparr>)
   \<and> Save snapshotPersister \<lparr>AvailableInstances = []\<rparr>
        \<lparr>AvailableInstances = [\<lparr>ID = ''a'', Credentials = credentialsUID 1\<rparr>]\<rparr> =
      (None, \<lparr>AvailableInstances = []\<rparr>)"
proof -
  let ?d = "scriptedCreator (Inl (OtherError ''unused'')) None None"
  let ?s = "\<lparr>ID = ''a'', Credentials = credentialsUID 1\<rparr>"
  let ?w = "worldWith [?s]"
  let ?state = "\<lparr>AvailableInstances = [?s]\<rparr>"
  let ?evs = "[EvLoad (Inr ?state), EvDeleteDatabase 1 None, EvSave \<lparr>AvailableInstances = []\<rparr> None]"
  let ?w' = "\<lparr>store = \<lparr>AvailableInstances = []\<rparr>, cluster = [1],
      WaitingForDatabaseTimeout = 15, selectPicksReceive = False, trace = ?evs\<rparr>"
  have load: "Load snapshotPersister (store ?w) = Inr ?state"
    by (simp add: snapshotPersister_def worldWith_def)
  have match: "\<exists>s \<in> set (AvailableInstances ?state). ID s = ''a''"
    by simp
  have run: "Destroy ?d ''a'' snapshotPersister ?w = (None, ?w')"
    by (simp add: Destroy_def Let_def deleteDatabase_def emit_def scriptedCreator_def scriptedClient_def
        snapshotPersister_def worldWith_def credentialsUID_def defaultWaitingForDatabaseTimeout_def)
  have events: "trace ?w' = trace ?w @ ?evs"
    by (simp add: worldWith_def)
  have deleted: "\<forall>uid err. EvDeleteDatabase uid (Some err) \<notin> set ?evs"
    by simp
  have saved: "\<forall>st err. EvSave st (Some err) \<notin> set ?evs"
    by simp
  show ?thesis
    using Destroy_persists_filtered [OF load match run events deleted saved] run
    by (simp add: worldWith_def)
qed

text \<open>
  Claim C6, as amended. Once the state is loaded: when no record has the given ID,
  \<open>Destroy\<close> returns \<open>ErrInstanceDoesNotExist\<close> and the world is as before but for the
  load event (no delete, no \<open>Save\<close>, the store unchanged). When \<open>Destroy\<close> returns nil, at
  least one record had the ID; exactly one when the IDs of the loaded state are pairwise
  distinct.
\<close>

theorem Destroy_needs_a_match:
  assumes load: "Load persister (store w) = Inr state"
    and run: "Destroy d instanceID persister w = (r, w')"
  shows "((\<forall>s \<in> set (AvailableInstances state). ID s \<noteq> instanceID) \<longrightarrow>
        r = Some ErrInstanceDoesNotExist \<and> w' = w\<lparr>trace := trace w @ [EvLoad (Inr state)]\<rparr>)
    \<and> (r = None \<longrightarrow>
        (\<exists>s \<in> set (AvailableInstances state). ID s = instanceID) \<and>
        (distinct (map ID (AvailableInstances state)) \<longrightarrow>
           length (filter (\<lambda>s. ID s = instanceID) (AvailableInstances state)) = 1))"
  using load run
proof (cases rule: Destroy_cases)
  case (delete_failed dels uid err)
  then show ?thesis
    by auto
next
  case not_found
  then show ?thesis
    by simp
next
  case (saved dels)
  then show ?thesis
    by (auto simp: one_record_with_ID)
qed

text \<open>Two runs of it: \<open>''b''\<close> is not stored; \<open>''a''\<close> is stored once and is destroyed.\<close>

theorem Destroy_needs_a_match_witness:
  "Destroy (scriptedCreator (Inl (OtherError ''unused'')) None None)
      ''b'' snapshotPersister (worldWith [\<lparr>ID = ''a'', Credentials = credentialsUID 1\<rparr>]) =
    (Some ErrInstanceDoesNotExist,
     \<lparr>store = \<lparr>AvailableInstances = [\<lparr>ID = ''a'', Credentials = credentialsUID 1\<rparr>]\<rparr>,
      cluster = [],
      WaitingForDatabaseTimeout = 15,
      selectPicksReceive = False,
      trace =
        [EvLoad (Inr \<lparr>AvailableInstances = [\<lparr>ID = ''a'', Credentials = credentialsUID 1\<rparr>]\<rparr>)]\<rparr>)
   \<and> fst (Destroy (scriptedCreator (Inl (OtherError ''unused'')) None None)
        ''a'' snapshotPersister (worldWith [\<lparr>ID = ''a'', Credentials = credentialsUID 1\<rparr>])) = None
   \<and> length (filter (\<lambda>s. ID s = ''a'') [\<lparr>ID = ''a'', Credentials = credentialsUID 1\<rparr>]) = 1"
proof -
  let ?d = "scriptedCreator (Inl (OtherError ''unused'')) None None"
  let ?s = "\<lparr>ID = ''a'', Credentials = credentialsUID 1\<rparr>"
  let ?w = "worldWith [?s]"
  let ?state = "\<lparr>AvailableInstances = [?s]\<rparr>"
  have load: "Load snapshotPersister (store ?w) = Inr ?state"
    by (simp add: snapshotPersister_def worldWith_def)
  have run_b: "Destroy ?d ''b'' snapshotPersister ?w =
      (fst (Destroy ?d ''b'' snapshotPersister ?w), snd (Destroy ?d ''b'' snapshotPersister ?w))"
    by simp
  have none: "\<forall>s \<in> set (AvailableInstances ?state). ID s \<noteq> ''b''"
    by simp
  from Destroy_needs_a_match [OF load run_b] none
  have b: "fst (Destroy ?d ''b'' snapshotPersister ?w) = Some ErrInstanceDoesNotExist \<and>
      snd (Destroy ?d ''b'' snapshotPersister ?w) = ?w\<lparr>trace := trace ?w @ [EvLoad (Inr ?state)]\<rparr>"
    by blast
  have run_a: "Destroy ?d ''a'' snapshotPersister ?w =
      (None, snd (Destroy ?d ''a'' snapshotPersister ?w))"
    by (simp add: Destroy_def Let_def deleteDatabase_def emit_def scriptedCreator_def scriptedClient_def
        snapshotPersister_def worldWith_def credentialsUID_def)
  have unique: "distinct (map ID (AvailableInstances ?state))"
    by simp
  from Destroy_needs_a_match [OF load run_a] unique
  have a: "length (filter (\<lambda>s. ID s = ''a'') (AvailableInstances ?state)) = 1"
    by blast
  from run_a have "fst (Destroy ?d ''a'' snapshotPersister ?w) = None"
    by (simp add: prod_eq_iff)
  with a b show ?thesis
    by (simp add: prod_eq_iff worldWith_def defaultWaitingForDatabaseTimeout_def)
qed

text \<open>
  Claim C6 as stated fails where two records have the ID: \<open>Destroy\<close> deletes the
  database of each, saves the state without them and returns nil.
\<close>

theorem Destroy_two_matches:
  "Destroy (scriptedCreator (Inl (OtherError ''unused'')) None None)
      ''a'' snapshotPersister
      (worldWith [\<lparr>ID = ''a'', Credentials = credentialsUID 1\<rparr>,
                  \<lparr>ID = ''a'', Credentials = credentialsUID 2\<rparr>]) =
    (None,
     \<lparr>store = \<lparr>AvailableInstances = []\<rparr>,
      cluster = [2, 1],
      WaitingForDatabaseTimeout = 15,
      selectPicksReceive = False,
      trace =
        [EvLoad (Inr \<lparr>AvailableInstances =
            [\<lparr>ID = ''a'', Credentials = credentialsUID 1\<rparr>,
             \<lparr>ID = ''a'', Credentials = credentialsUID 2\<rparr>]\<rparr>),
         EvDeleteDatabase 1 None,
         EvDeleteDatabase 2 None,
         EvSave \<lparr>AvailableInstances = []\<rparr> None]\<rparr>)
   \<and> length (filter (\<lambda>s. ID s = ''a'')
        [\<lparr>ID = ''a'', Credentials = credentialsUID 1\<rparr>,
         \<lparr>ID = ''a'', Credentials = credentialsUID 2\<rparr>]) = 2"
  by (simp add: Destroy_def Let_def deleteDatabase_def emit_def scriptedCreator_def scriptedClient_def
      snapshotPersister_def worldWith_def credentialsUID_def defaultWaitingForDatabaseTimeout_def)

subsection \<open>Update\<close>

text \<open>
  Claim C10. Whatever \<open>Update\<close> returns, no \<open>Save\<close> is among the events of the run and
  the store is as before. When the load fails it returns the error of the load; when no
  record has the given ID, \<open>ErrInstanceDoesNotExist\<close>; otherwise what \<^verbatim>\<open>UpdateDatabase\<close>
  returns for the UID of the first record with the ID and the given parameters, that
  call being the only event after the load.
\<close>

theorem Update_never_saves:
  assumes run: "Update d instanceID params persister w = (r, w')"
  shows "(\<exists>evs. trace w' = trace w @ evs \<and> (\<forall>st sv. EvSave st sv \<notin> set evs))
    \<and> store w' = store w
    \<and> (\<forall>err. Load persister (store w) = Inl err \<longrightarrow> r = Some err)
    \<and> (\<forall>state. Load persister (store w) = Inr state \<longrightarrow>
         ((\<forall>s \<in> set (AvailableInstances state). ID s \<noteq> instanceID) \<longrightarrow>
            r = Some ErrInstanceDoesNotExist) \<and>
         (\<forall>pre s post.
            AvailableInstances state = pre @ s # post \<and>
            (\<forall>x \<in> set pre. ID x \<noteq> instanceID) \<and> ID s = instanceID \<longrightarrow>
            r = fst (UpdateDatabase (apiClient d) (UID (Credentials s)) params (cluster w)) \<and>
            w' = w\<lparr>cluster :=
                     snd (UpdateDatabase (apiClient d) (UID (Credentials s)) params (cluster w)),
                   trace := trace w @
                     [EvLoad (Inr state), EvUpdateDatabase (UID (Credentials s)) params r]\<rparr>))"
proof (intro conjI allI impI)
  show "\<exists>evs. trace w' = trace w @ evs \<and> (\<forall>st sv. EvSave st sv \<notin> set evs)"
    using run by (rule Update_effect)
  show "store w' = store w"
    using run by (rule Update_effect)
next
  fix err assume "Load persister (store w) = Inl err"
  with run show "r = Some err"
    by (auto simp: Update_def)
next
  fix state
  assume load: "Load persister (store w) = Inr state"
    and "\<forall>s \<in> set (AvailableInstances state). ID s \<noteq> instanceID"
  with updateLoop_skip [of "AvailableInstances state" instanceID d params "[]"
      "emit (EvLoad (Inr state)) w"] run
  show "r = Some ErrInstanceDoesNotExist"
    by (simp add: Update_def)
next
  fix state pre s post
  assume load: "Load persister (store w) = Inr state"
    and a: "AvailableInstances state = pre @ s # post \<and>
            (\<forall>x \<in> set pre. ID x \<noteq> instanceID) \<and> ID s = instanceID"
  let ?w1 = "emit (EvLoad (Inr state)) w"
  let ?uid = "UID (Credentials s)"
  have "Update d instanceID params persister w = updateDatabase d ?uid params ?w1"
    using load a updateLoop_skip [of pre instanceID d params "s # post" ?w1]
    by (simp add: Update_def)
  with run have u: "updateDatabase d ?uid params ?w1 = (r, w')"
    by simp
  then show "r = fst (UpdateDatabase (apiClient d) ?uid params (cluster w))"
    by (auto simp: updateDatabase_def emit_def split: prod.splits)
  from u show "w' = w\<lparr>cluster := snd (UpdateDatabase (apiClient d) ?uid params (cluster w)),
      trace := trace w @ [EvLoad (Inr state), EvUpdateDatabase ?uid params r]\<rparr>"
    by (auto simp: updateDatabase_def emit_def split: prod.splits)
qed

text \<open>
  Three runs of it: the client rejects the update of \<open>''a''\<close>; \<open>''b''\<close> is not stored;
  the state cannot be loaded.
\<close>

theorem Update_never_saves_witness:
  "Update (scriptedCreator (Inl (OtherError ''unused'')) (Some (OtherError ''rejected'')) None)
      ''a'' Map.empty snapshotPersister
      (worldWith [\<lparr>ID = ''a'', Credentials = credentialsUID 1\<rparr>]) =
    (Some (OtherError ''rejected''),
     \<lparr>store = \<lparr>AvailableInstances = [\<lparr>ID = ''a'', Credentials = credentialsUID 1\<rparr>]\<rparr>,
      cluster = [],
      WaitingForDatabaseTimeout = 15,
      selectPicksReceive = False,
      trace =
        [EvLoad (Inr \<lparr>AvailableInstances = [\<lparr>ID = ''a'', Credentials = credentialsUID 1\<rparr>]\<rparr>),
         EvUpdateDatabase 1 Map.empty (Some (OtherError ''rejected''))]\<rparr>)
   \<and> fst (Update (scriptedCreator (Inl (OtherError ''unused'')) (Some (OtherError ''rejected'')) None)
        ''b'' Map.empty snapshotPersister
        (worldWith [\<lparr>ID = ''a'', Credentials = credentialsUID 1\<rparr>])) =
      Some ErrInstanceDoesNotExist
   \<and> fst (Update (scriptedCreator (Inl (OtherError ''unused'')) (Some (OtherError ''rejected'')) None)
        ''a'' Map.empty (brokenPersister (OtherError ''no state file''))
        (worldWith [\<lparr>ID = ''a'', Credentials = credentialsUID 1\<rparr>])) =
      Some (OtherError ''no state file'')"
proof -
  let ?d = "scriptedCreator (Inl (OtherError ''unused'')) (Some (OtherError ''rejected'')) None"
  let ?a = "\<lparr>ID = ''a'', Credentials = credentialsUID 1\<rparr>"
  let ?w = "worldWith [?a]"
  let ?state = "\<lparr>AvailableInstances = [?a]\<rparr>"
  let ?broken = "brokenPersister (OtherError ''no state file'')"
  have load: "Load snapshotPersister (store ?w) = Inr ?state"
    by (simp add: snapshotPersister_def worldWith_def)
  have run_a: "Update ?d ''a'' Map.empty snapshotPersister ?w =
      (fst (Update ?d ''a'' Map.empty snapshotPersister ?w),
       snd (Update ?d ''a'' Map.empty snapshotPersister ?w))"
    by simp
  have first: "AvailableInstances ?state = [] @ ?a # [] \<and>
      (\<forall>x \<in> set []. ID x \<noteq> ''a'') \<and> ID ?a = ''a''"
    by simp
  from Update_never_saves [OF run_a] load first
  have a: "fst (Update ?d ''a'' Map.empty snapshotPersister ?w) =
        fst (UpdateDatabase (apiClient ?d) (UID (Credentials ?a)) Map.empty (cluster ?w)) \<and>
      snd (Update ?d ''a'' Map.empty snapshotPersister ?w) =
        ?w\<lparr>cluster := snd (UpdateDatabase (apiClient ?d) (UID (Credentials ?a)) Map.empty (cluster ?w)),
           trace := trace ?w @
             [EvLoad (Inr ?state),
              EvUpdateDatabase (UID (Credentials ?a)) Map.empty
                (fst (Update ?d ''a'' Map.empty snapshotPersister ?w))]\<rparr>"
    by blast
  have run_b: "Update ?d ''b'' Map.empty snapshotPersister ?w =
      (fst (Update ?d ''b'' Map.empty snapshotPersister ?w),
       snd (Update ?d ''b'' Map.empty snapshotPersister ?w))"
    by simp
  have none: "\<forall>s \<in> set (AvailableInstances ?state). ID s \<noteq> ''b''"
    by simp
  from Update_never_saves [OF run_b] load none
  have b: "fst (Update ?d ''b'' Map.empty snapshotPersister ?w) = Some ErrInstanceDoesNotExist"
    by blast
  have run_c: "Update ?d ''a'' Map.empty ?broken ?w =
      (fst (Update ?d ''a'' Map.empty ?broken ?w), snd (Update ?d ''a'' Map.empty ?broken ?w))"
    by simp
  have load_fails: "Load ?broken (store ?w) = Inl (OtherError ''no state file'')"
    by (simp add: brokenPersister_def)
  from Update_never_saves [OF run_c] load_fails
  have c: "fst (Update ?d ''a'' Map.empty ?broken ?w) = Some (OtherError ''no state file'')"
    by blast
  from a b c show ?thesis
    by (simp add: prod_eq_iff scriptedCreator_def scriptedClient_def worldWith_def
        credentialsUID_def defaultWaitingForDatabaseTimeout_def)
qed

subsection \<open>The IDs of a saved state\<close>

text \<open>
  Claim C7. When the loaded state has pairwise distinct IDs, every state that \<open>Create\<close>
  or \<open>Destroy\<close> passes to \<open>Save\<close> has pairwise distinct IDs, and \<open>Update\<close> and
  \<open>InstanceExists\<close> pass no state to \<open>Save\<close>.
\<close>

theorem saved_states_have_distinct_IDs:
  assumes load: "Load persister (store w) = Inr state"
    and unique: "distinct (map ID (AvailableInstances state))"
  shows "(\<exists>evs. trace (snd (Create d instanceID settings persister w)) = trace w @ evs \<and>
        (\<forall>st sv. EvSave st sv \<in> set evs \<longrightarrow> distinct (map ID (AvailableInstances st))))
    \<and> (\<exists>evs. trace (snd (Destroy d instanceID persister w)) = trace w @ evs \<and>
        (\<forall>st sv. EvSave st sv \<in> set evs \<longrightarrow> distinct (map ID (AvailableInstances st))))
    \<and> (\<exists>evs. trace (snd (Update d instanceID settings persister w)) = trace w @ evs \<and>
        (\<forall>st sv. EvSave st sv \<notin> set evs))
    \<and> (\<exists>evs. trace (snd (InstanceExists d instanceID persister w)) = trace w @ evs \<and>
        (\<forall>st sv. EvSave st sv \<notin> set evs))"
proof (intro conjI)
  from Create_saves [OF load, of d instanceID settings] obtain evs where
    tr: "trace (snd (Create d instanceID settings persister w)) = trace w @ evs" and
    sv: "\<forall>st r. EvSave st r \<in> set evs \<longrightarrow>
        (\<forall>s \<in> set (AvailableInstances state). ID s \<noteq> instanceID) \<and>
        (\<exists>credentials. st = state\<lparr>AvailableInstances :=
            AvailableInstances state @ [\<lparr>ID = instanceID, Credentials = credentials\<rparr>]\<rparr>)"
    by blast
  have "distinct (map ID (AvailableInstances st))" if "EvSave st r \<in> set evs" for st r
  proof -
    from sv that obtain credentials where
      "\<forall>s \<in> set (AvailableInstances state). ID s \<noteq> instanceID"
      "st = state\<lparr>AvailableInstances :=
            AvailableInstances state @ [\<lparr>ID = instanceID, Credentials = credentials\<rparr>]\<rparr>"
      by blast
    with unique show ?thesis
      by auto
  qed
  with tr show "\<exists>evs. trace (snd (Create d instanceID settings persister w)) = trace w @ evs \<and>
        (\<forall>st sv. EvSave st sv \<in> set evs \<longrightarrow> distinct (map ID (AvailableInstances st)))"
    by blast
next
  obtain r w' where run: "Destroy d instanceID persister w = (r, w')"
    by (cases "Destroy d instanceID persister w")
  from load run have "\<exists>evs. trace w' = trace w @ evs \<and>
        (\<forall>st sv. EvSave st sv \<in> set evs \<longrightarrow> distinct (map ID (AvailableInstances st)))"
  proof (cases rule: Destroy_cases)
    case (delete_failed dels uid err)
    from delete_failed(1) have "\<forall>st sv. EvSave st sv \<notin> set dels"
      by auto
    with delete_failed(4) show ?thesis
      by - (rule exI, erule conjI, simp)
  next
    case not_found
    then show ?thesis
      by simp
  next
    case (saved dels)
    from saved(1) have "\<forall>st sv. EvSave st sv \<notin> set dels"
      by auto
    moreover have "distinct (map ID (filter (\<lambda>s. ID s \<noteq> instanceID) (AvailableInstances state)))"
      using unique by (rule distinct_map_filter)
    ultimately show ?thesis
      using saved(5) by - (rule exI, erule conjI, simp)
  qed
  with run show "\<exists>evs. trace (snd (Destroy d instanceID persister w)) = trace w @ evs \<and>
        (\<forall>st sv. EvSave st sv \<in> set evs \<longrightarrow> distinct (map ID (AvailableInstances st)))"
    by simp
next
  obtain r w' where run: "Update d instanceID settings persister w = (r, w')"
    by (cases "Update d instanceID settings persister w")
  from Update_effect(2) [OF run] run
  show "\<exists>evs. trace (snd (Update d instanceID settings persister w)) = trace w @ evs \<and>
        (\<forall>st sv. EvSave st sv \<notin> set evs)"
    by simp
next
  show "\<exists>evs. trace (snd (InstanceExists d instanceID persister w)) = trace w @ evs \<and>
        (\<forall>st sv. EvSave st sv \<notin> set evs)"
    by (simp add: InstanceExists_def)
qed

text \<open>
  Two runs of it, with \<open>''a''\<close> stored: \<open>Create\<close> of \<open>''x''\<close> saves the two records,
  \<open>Destroy\<close> of \<open>''a''\<close> saves none; the IDs saved are distinct.
\<close>

theorem saved_states_have_distinct_IDs_witness:
  "distinct (map ID [\<lparr>ID = ''a'', Credentials = credentialsUID 1\<rparr>])
   \<and> trace (snd (Create (scriptedCreator (Inr (Delivers 0 (credentialsUID 7))) None None)
        ''x'' Map.empty snapshotPersister
        (worldWith [\<lparr>ID = ''a'', Credentials = credentialsUID 1\<rparr>]))) =
      [EvLock,
       EvLoad (Inr \<lparr>AvailableInstances = [\<lparr>ID = ''a'', Credentials = credentialsUID 1\<rparr>]\<rparr>),
       EvCreateDatabase Map.empty (Inr (Delivers 0 (credentialsUID 7))),
       EvSave \<lparr>AvailableInstances =
          [\<lparr>ID = ''a'', Credentials = credentialsUID 1\<rparr>,
           \<lparr>ID = ''x'', Credentials = credentialsUID 7\<rparr>]\<rparr> None,
       EvUnlock]
   \<and> distinct (map ID (AvailableInstances \<lparr>AvailableInstances =
          [\<lparr>ID = ''a'', Credentials = credentialsUID 1\<rparr>,
           \<lparr>ID = ''x'', Credentials = credentialsUID 7\<rparr>]\<rparr>))
   \<and> trace (snd (Destroy (scriptedCreator (Inr (Delivers 0 (credentialsUID 7))) None None)
        ''a'' snapshotPersister
        (worldWith [\<lparr>ID = ''a'', Credentials = credentialsUID 1\<rparr>]))) =
      [EvLoad (Inr \<lparr>AvailableInstances = [\<lparr>ID = ''a'', Credentials = credentialsUID 1\<rparr>]\<rparr>),
       EvDeleteDatabase 1 None,
       EvSave \<lparr>AvailableInstances = []\<rparr> None]
   \<and> distinct (map ID (AvailableInstances \<lparr>AvailableInstances = []\<rparr>))"
proof -
  let ?d = "scriptedCreator (Inr (Delivers 0 (credentialsUID 7))) None None"
  let ?a = "\<lparr>ID = ''a'', Credentials = credentialsUID 1\<rparr>"
  let ?w = "worldWith [?a]"
  let ?state = "\<lparr>AvailableInstances = [?a]\<rparr>"
  let ?state' = "\<lparr>AvailableInstances = [?a, \<lparr>ID = ''x'', Credentials = credentialsUID 7\<rparr>]\<rparr>"
  let ?evs = "[EvLock, EvLoad (Inr ?state),
       EvCreateDatabase Map.empty (Inr (Delivers 0 (credentialsUID 7))),
       EvSave ?state' None, EvUnlock]"
  let ?evs' = "[EvLoad (Inr ?state), EvDeleteDatabase 1 None, EvSave \<lparr>AvailableInstances = []\<rparr> None]"
  have load: "Load snapshotPersister (store ?w) = Inr ?state"
    by (simp add: snapshotPersister_def worldWith_def)
  have unique: "distinct (map ID (AvailableInstances ?state))"
    by simp
  have tr: "trace (snd (Create ?d ''x'' Map.empty snapshotPersister ?w)) = ?evs"
    by (simp add: Create_def Let_def createDatabase_def selectReceive_def timerDuration_default
        emit_def scriptedCreator_def scriptedClient_def snapshotPersister_def worldWith_def)
  have tr': "trace (snd (Destroy ?d ''a'' snapshotPersister ?w)) = ?evs'"
    by (simp add: Destroy_def Let_def deleteDatabase_def emit_def scriptedCreator_def
        scriptedClient_def snapshotPersister_def worldWith_def credentialsUID_def)
  from saved_states_have_distinct_IDs [OF load unique, of ?d "''x''" Map.empty] obtain evs where
    "trace (snd (Create ?d ''x'' Map.empty snapshotPersister ?w)) = trace ?w @ evs"
    and sv: "\<forall>st sv. EvSave st sv \<in> set evs \<longrightarrow> distinct (map ID (AvailableInstances st))"
    by blast
  with tr have "evs = ?evs"
    by (simp add: worldWith_def)
  then have "EvSave ?state' None \<in> set evs"
    by simp
  with sv have created: "distinct (map ID (AvailableInstances ?state'))"
    by blast
  from saved_states_have_distinct_IDs [OF load unique, of ?d "''a''" Map.empty] obtain evs' where
    "trace (snd (Destroy ?d ''a'' snapshotPersister ?w)) = trace ?w @ evs'"
    and sv': "\<forall>st sv. EvSave st sv \<in> set evs' \<longrightarrow> distinct (map ID (AvailableInstances st))"
    by blast
  with tr' have "evs' = ?evs'"
    by (simp add: worldWith_def)
  then have "EvSave \<lparr>AvailableInstances = []\<rparr> None \<in> set evs'"
    by simp
  with sv' have destroyed: "distinct (map ID (AvailableInstances \<lparr>AvailableInstances = []\<rparr>))"
    by blast
  from tr tr' unique created destroyed show ?thesis
    by simp
qed

subsection \<open>InstanceExists\<close>

text \<open>
  Claim C9. For every instance ID, persister and world, \<open>InstanceExists\<close> returns
  \<^verbatim>\<open>(false, nil)\<close> and leaves the world as it was: it makes no call on the persister, so
  no event is added, whether or not a record with that ID is stored.
\<close>

theorem InstanceExists_false:
  "InstanceExists d instanceID persister w = ((False, None), w)"
  by (simp add: InstanceExists_def)

end
